theory Spec2Isabelle
  imports Main
begin

section \<open>Data model\<close>

text \<open>
  JavaScript strings are compared only for equality and tested only for emptiness by the
  code below, so a string is modelled by the list of its UTF-8 bytes. A value of type
  \<open>string | undefined\<close> is a \<open>string option\<close>, \<open>None\<close> being \<open>undefined\<close>.
\<close>

record event =
  id_event :: string
  pubkey :: string
  kind :: int
  created_at :: int
  content :: string
  tags :: "string list list"

text \<open>
  A filter descriptor as the hooks build it: a field that the object literal leaves out
  is \<open>None\<close>. The fields \<open>hash_e\<close>, \<open>hash_E\<close>, \<open>hash_a\<close>, \<open>hash_A\<close>, \<open>hash_p\<close> are the
  keys \<open>'#e'\<close>, \<open>'#E'\<close>, \<open>'#a'\<close>, \<open>'#A'\<close>, \<open>'#p'\<close>.
\<close>

record NostrFilter =
  kinds :: "int list"
  authors :: "string list option"
  hash_e :: "string list option"
  hash_E :: "string list option"
  hash_a :: "string list option"
  hash_A :: "string list option"
  hash_p :: "string list option"
  limit :: "nat option"

datatype error = NetworkError | TimeoutError | Thrown string

text \<open>
  The relay client \<open>nostr.query(filters, {signal})\<close> is an external collaborator: it
  either resolves to a list of events or rejects (network failure, abort by the timeout
  signal, any thrown exception). It is a parameter of every hook.
\<close>

type_synonym relay = "NostrFilter list \<Rightarrow> error + event list"

record VideoSocialMetrics =
  likeCount :: nat
  repostCount :: nat
  viewCount :: nat
  commentCount :: nat

record VideoUserInteractions =
  hasLiked :: bool
  hasReposted :: bool
  likeEventId :: "string option"
  repostEventId :: "string option"

record URL =
  hostname :: string

section \<open>JavaScript primitives used by the hooks\<close>

text \<open>Truthiness of a \<open>string | undefined\<close>: defined and not the empty string.\<close>

definition truthy :: "string option \<Rightarrow> bool" where
  "truthy v = (case v of None \<Rightarrow> False | Some s \<Rightarrow> s \<noteq> [])"

text \<open>\<open>tag[i]\<close> on an array of strings: \<open>undefined\<close> out of range.\<close>

definition tag_at :: "string list \<Rightarrow> nat \<Rightarrow> string option" where
  "tag_at tag i = (if i < length tag then Some (tag ! i) else None)"

text \<open>
  \<open>try { body } catch (error) { handler }\<close>: a computation that may throw is a value of
  \<open>error + 'a\<close>, \<open>Inl\<close> being the exception.
\<close>

definition try_catch :: "error + 'a \<Rightarrow> (error \<Rightarrow> error + 'a) \<Rightarrow> error + 'a" where
  "try_catch body handler = (case body of Inl err \<Rightarrow> handler err | Inr v \<Rightarrow> Inr v)"

text \<open>
  A \<open>Map<string, event>\<close> keeps its keys in the order of their first insertion;
  \<open>set\<close> on a key already present replaces the value in place.
\<close>

fun map_set :: "(string \<times> event) list \<Rightarrow> string \<Rightarrow> event \<Rightarrow> (string \<times> event) list" where
  "map_set [] k v = [(k, v)]"
| "map_set ((k', v') # m) k v =
     (if k' = k then (k, v) # m else (k', v') # map_set m k v)"

definition map_values :: "(string \<times> event) list \<Rightarrow> event list" where
  "map_values m = map snd m"

text \<open>
  A \<open>Set<string>\<close> read back with \<open>Array.from\<close>: insertion order, \<open>add\<close> of a member
  changes nothing.
\<close>

definition set_add :: "string list \<Rightarrow> string \<Rightarrow> string list" where
  "set_add s x = (if x \<in> set s then s else s @ [x])"

section \<open>Social metrics and user interactions (part\_001)\<close>

text \<open>The emoji literals of the source, as their UTF-8 bytes: U+2764 U+FE0F and U+1F44D.\<close>

definition heart :: string where
  "heart = [CHR 0xE2, CHR 0x9D, CHR 0xA4, CHR 0xEF, CHR 0xB8, CHR 0x8F]"

definition thumbs_up :: string where
  "thumbs_up = [CHR 0xF0, CHR 0x9F, CHR 0x91, CHR 0x8D]"

text \<open>
  \<open>videoPubkey && vineId ? `34236:${videoPubkey}:${vineId}` : null\<close>
\<close>

definition addressableRef :: "string option \<Rightarrow> string option \<Rightarrow> string option" where
  "addressableRef videoPubkey vineId =
     (case (videoPubkey, vineId) of
        (Some p, Some d) \<Rightarrow>
          if p \<noteq> [] \<and> d \<noteq> [] then Some (''34236:'' @ p @ '':'' @ d) else None
      | _ \<Rightarrow> None)"

definition metrics_filters :: "string \<Rightarrow> string option \<Rightarrow> string option \<Rightarrow> NostrFilter list" where
  "metrics_filters videoId videoPubkey vineId =
     [\<lparr>kinds = [1, 6, 7, 1111, 9735], authors = None, hash_e = Some [videoId], hash_E = None,
       hash_a = None, hash_A = None, hash_p = None, limit = Some 500\<rparr>,
      \<lparr>kinds = [1, 6, 7, 1111, 9735], authors = None, hash_e = None, hash_E = Some [videoId],
       hash_a = None, hash_A = None, hash_p = None, limit = Some 500\<rparr>]
     @ (case addressableRef videoPubkey vineId of
          None \<Rightarrow> []
        | Some r \<Rightarrow>
            [\<lparr>kinds = [1, 6, 7, 1111, 9735], authors = None, hash_e = None, hash_E = None,
              hash_a = Some [r], hash_A = None, hash_p = None, limit = Some 500\<rparr>,
             \<lparr>kinds = [1, 6, 7, 1111, 9735], authors = None, hash_e = None, hash_E = None,
              hash_a = None, hash_A = Some [r], hash_p = None, limit = Some 500\<rparr>])"

text \<open>The deduplication loop: \<open>uniqueEvents.set(event.id, event)\<close> for each event, then
  \<open>Array.from(uniqueEvents.values())\<close>.\<close>

definition uniqueEvents :: "event list \<Rightarrow> event list" where
  "uniqueEvents allEvents =
     map_values (fold (\<lambda>event m. map_set m (id_event event) event) allEvents [])"

text \<open>The body of the \<open>switch (event.kind)\<close> loop.\<close>

definition count_event :: "event \<Rightarrow> VideoSocialMetrics \<Rightarrow> VideoSocialMetrics" where
  "count_event event m =
     (if kind event = 7 then
        (if content event = ''+'' \<or> content event = heart \<or> content event = thumbs_up
         then m\<lparr>likeCount := likeCount m + 1\<rparr> else m)
      else if kind event = 6 then m\<lparr>repostCount := repostCount m + 1\<rparr>
      else if kind event = 1 \<or> kind event = 1111 then m\<lparr>commentCount := commentCount m + 1\<rparr>
      else if kind event = 9735 then m\<lparr>viewCount := viewCount m + 1\<rparr>
      else m)"

definition zero_metrics :: VideoSocialMetrics where
  "zero_metrics = \<lparr>likeCount = 0, repostCount = 0, viewCount = 0, commentCount = 0\<rparr>"

definition useVideoSocialMetrics ::
  "relay \<Rightarrow> string \<Rightarrow> string option \<Rightarrow> string option \<Rightarrow> error + VideoSocialMetrics" where
  "useVideoSocialMetrics nostr videoId videoPubkey vineId =
     try_catch
       (case nostr (metrics_filters videoId videoPubkey vineId) of
          Inl err \<Rightarrow> Inl err
        | Inr allEvents \<Rightarrow> Inr (fold count_event (uniqueEvents allEvents) zero_metrics))
       (\<lambda>err. Inr zero_metrics)"

definition interaction_filters ::
  "string \<Rightarrow> string \<Rightarrow> string option \<Rightarrow> string option \<Rightarrow> NostrFilter list" where
  "interaction_filters videoId userPubkey videoPubkey vineId =
     [\<lparr>kinds = [6, 7], authors = Some [userPubkey], hash_e = Some [videoId], hash_E = None,
       hash_a = None, hash_A = None, hash_p = None, limit = Some 10\<rparr>]
     @ (case addressableRef videoPubkey vineId of
          None \<Rightarrow> []
        | Some r \<Rightarrow>
            [\<lparr>kinds = [6, 7], authors = Some [userPubkey], hash_e = None, hash_E = None,
              hash_a = Some [r], hash_A = None, hash_p = None, limit = Some 10\<rparr>])"

definition delete_filters :: "string \<Rightarrow> event list \<Rightarrow> NostrFilter list" where
  "delete_filters userPubkey events =
     [\<lparr>kinds = [5], authors = Some [userPubkey], hash_e = Some (map id_event events),
       hash_E = None, hash_a = None, hash_A = None, hash_p = None, limit = Some 20\<rparr>]"

text \<open>\<open>if (tag[0] === 'e' && tag[1]) deletedEventIds.add(tag[1])\<close>\<close>

definition add_deleted :: "string list \<Rightarrow> string set \<Rightarrow> string set" where
  "add_deleted tag s =
     (if tag_at tag 0 = Some ''e'' \<and> truthy (tag_at tag 1)
      then (case tag_at tag 1 of Some v \<Rightarrow> insert v s | None \<Rightarrow> s)
      else s)"

definition deletedEventIds :: "event list \<Rightarrow> string set" where
  "deletedEventIds deleteEvents =
     fold (\<lambda>deleteEvent s. fold add_deleted (tags deleteEvent) s) deleteEvents {}"

text \<open>The body of the loop that processes the events, ignoring deleted ones.\<close>

definition interaction_step ::
  "string set \<Rightarrow> event \<Rightarrow> VideoUserInteractions \<Rightarrow> VideoUserInteractions" where
  "interaction_step deleted event r =
     (if id_event event \<in> deleted then r
      else
        (let r1 = (if kind event = 7 \<and>
                      (content event = ''+'' \<or> content event = heart \<or> content event = thumbs_up)
                   then r\<lparr>hasLiked := True, likeEventId := Some (id_event event)\<rparr> else r)
         in if kind event = 6
            then r1\<lparr>hasReposted := True, repostEventId := Some (id_event event)\<rparr> else r1))"

definition no_interactions :: VideoUserInteractions where
  "no_interactions =
     \<lparr>hasLiked = False, hasReposted = False, likeEventId = None, repostEventId = None\<rparr>"

definition useVideoUserInteractions ::
  "relay \<Rightarrow> string \<Rightarrow> string option \<Rightarrow> string option \<Rightarrow> string option
     \<Rightarrow> error + VideoUserInteractions" where
  "useVideoUserInteractions nostr videoId userPubkey videoPubkey vineId =
     (case userPubkey of
        None \<Rightarrow> Inr no_interactions
      | Some u \<Rightarrow>
          if u = [] then Inr no_interactions
          else
            try_catch
              (case nostr (interaction_filters videoId u videoPubkey vineId) of
                 Inl err \<Rightarrow> Inl err
               | Inr allEvents \<Rightarrow>
                   (let events = uniqueEvents allEvents in
                    case nostr (delete_filters u events) of
                      Inl err \<Rightarrow> Inl err
                    | Inr deleteEvents \<Rightarrow>
                        Inr (fold (interaction_step (deletedEventIds deleteEvents)) events
                               no_interactions)))
              (\<lambda>err. Inr no_interactions))"

subsection \<open>Relay configuration\<close>

definition NIP50_SUPPORTED_RELAYS :: "string list" where
  "NIP50_SUPPORTED_RELAYS =
     [''relay.divine.video'', ''relay.nostr.band'', ''relay.primal.net'', ''relay.nostr.wine'',
      ''relay.openvine.co'', ''relay2.openvine.co'', ''relay3.openvine.co'']"

text \<open>
  \<open>new URL(relayUrl)\<close> is the platform's parser, a parameter here: it returns the parsed
  URL or throws.
\<close>

definition supportsNIP50 :: "(string \<Rightarrow> error + URL) \<Rightarrow> string \<Rightarrow> error + bool" where
  "supportsNIP50 new_URL relayUrl =
     try_catch
       (case new_URL relayUrl of
          Inl err \<Rightarrow> Inl err
        | Inr url \<Rightarrow> Inr (hostname url \<in> set NIP50_SUPPORTED_RELAYS))
       (\<lambda>err. Inr False)"

section \<open>Follow graph (part\_000 and useFollowers.ts)\<close>

text \<open>
  \<open>contactListEvents.sort((a, b) => b.created_at - a.created_at)\<close>: the sort is stable
  and descending in \<open>created_at\<close>.
\<close>

definition sort_desc :: "event list \<Rightarrow> event list" where
  "sort_desc evs = sort_key (\<lambda>e. - created_at e) evs"

text \<open>
  The two filters and the map over the tags of the contact list. The array that
  \<open>.map(tag => tag[1])\<close> builds holds whatever \<open>tag[1]\<close> is, so its elements are
  \<open>string option\<close>.
\<close>

definition following_of :: "event \<Rightarrow> string option list" where
  "following_of contactList =
     (let pTags = filter (\<lambda>tag. tag_at tag 0 = Some ''p'') (tags contactList)
      in map (\<lambda>tag. tag_at tag 1) (filter (\<lambda>tag. truthy (tag_at tag 1)) pTags))"

text \<open>
  \<open>new Date(t).toISOString()\<close> throws a RangeError when the time value \<open>t\<close>, in
  milliseconds, is outside the range of a Date, which is 8.64e15 on either side of the
  epoch.
\<close>

definition valid_date :: "int \<Rightarrow> bool" where
  "valid_date ms = (\<bar>ms\<bar> \<le> 8640000000000000)"

definition following_queryFilter :: "string \<Rightarrow> NostrFilter" where
  "following_queryFilter pk =
     \<lparr>kinds = [3], authors = Some [pk], hash_e = None, hash_E = None,
      hash_a = None, hash_A = None, hash_p = None, limit = Some 1\<rparr>"

text \<open>
  The arguments of the log calls are evaluated inside the \<open>try\<close>: \<open>contactList.id\<close>
  throws a TypeError on \<open>undefined\<close>, and
  \<open>new Date(contactList.created_at * 1000).toISOString()\<close> throws a RangeError on a
  time value out of range. Both end in the \<open>catch\<close>.
\<close>

definition useFollowing :: "relay \<Rightarrow> string option \<Rightarrow> error + string option list" where
  "useFollowing nostr pubkey' =
     (case pubkey' of
        None \<Rightarrow> Inr []
      | Some pk \<Rightarrow>
          if pk = [] then Inr []
          else
            try_catch
              (case nostr [following_queryFilter pk] of
                 Inl err \<Rightarrow> Inl err
               | Inr contactListEvents \<Rightarrow>
                   if length contactListEvents = 0 then Inr []
                   else
                     (case sort_desc contactListEvents of
                        [] \<Rightarrow> Inl (Thrown ''TypeError'')
                      | contactList # _ \<Rightarrow>
                          if valid_date (created_at contactList * 1000)
                          then Inr (following_of contactList)
                          else Inl (Thrown ''RangeError'')))
              (\<lambda>err. Inr []))"

definition followers_queryFilter :: "string \<Rightarrow> NostrFilter" where
  "followers_queryFilter pk =
     \<lparr>kinds = [3], authors = None, hash_e = None, hash_E = None,
      hash_a = None, hash_A = None, hash_p = Some [pk], limit = Some 10000\<rparr>"

definition useFollowers :: "relay \<Rightarrow> string option \<Rightarrow> error + string list" where
  "useFollowers nostr pubkey' =
     (case pubkey' of
        None \<Rightarrow> Inr []
      | Some pk \<Rightarrow>
          if pk = [] then Inr []
          else
            try_catch
              (case nostr [followers_queryFilter pk] of
                 Inl err \<Rightarrow> Inl err
               | Inr contactListEvents \<Rightarrow>
                   if length contactListEvents = 0 then Inr []
                   else Inr (fold (\<lambda>event s. set_add s (pubkey event)) contactListEvents []))
              (\<lambda>err. Inr []))"

section \<open>The following list in the words of the specification\<close>

text \<open>
  The second element of a tag whose first element is \<open>'p'\<close> and whose second element is
  present and non-empty; the list of these over the tags, in tag order.
\<close>

fun p_tag_value :: "string list \<Rightarrow> string option" where
  "p_tag_value (k # v # rest) = (if k = ''p'' \<and> v \<noteq> [] then Some v else None)"
| "p_tag_value _ = None"

definition following_spec :: "string list list \<Rightarrow> string list" where
  "following_spec ts = List.map_filter p_tag_value ts"

section \<open>Invariant of the deduplication map\<close>

text \<open>Keys are pairwise different and every value is stored under its own identifier.\<close>

definition keyed :: "(string \<times> event) list \<Rightarrow> bool" where
  "keyed m = (distinct (map fst m) \<and> list_all (\<lambda>p. id_event (snd p) = fst p) m)"

section \<open>Example relays and events\<close>

text \<open>
  A relay given by the table of its answers; a query that the table does not list is
  rejected.
\<close>

definition table_relay :: "(NostrFilter list \<times> event list) list \<Rightarrow> relay" where
  "table_relay answers fs =
     (case map_of answers fs of Some evs \<Rightarrow> Inr evs | None \<Rightarrow> Inl TimeoutError)"

definition ex_like :: event where
  "ex_like = \<lparr>id_event = ''e1'', pubkey = ''alice'', kind = 7, created_at = 100,
              content = ''+'', tags = [[''e'', ''video1'']]\<rparr>"

definition ex_unlike :: event where
  "ex_unlike = \<lparr>id_event = ''d1'', pubkey = ''alice'', kind = 5, created_at = 200,
                content = [], tags = [[''e'', ''e1'']]\<rparr>"

definition ex_relike :: event where
  "ex_relike = \<lparr>id_event = ''e2'', pubkey = ''alice'', kind = 7, created_at = 300,
                content = heart, tags = [[''e'', ''video1'']]\<rparr>"

definition ex_repost :: event where
  "ex_repost = \<lparr>id_event = ''r1'', pubkey = ''alice'', kind = 6, created_at = 150,
                content = [], tags = [[''e'', ''video1'']]\<rparr>"

definition ex_dislike :: event where
  "ex_dislike = \<lparr>id_event = ''x1'', pubkey = ''bob'', kind = 7, created_at = 120,
                 content = ''-'', tags = [[''e'', ''video1'']]\<rparr>"

definition ex_comment :: event where
  "ex_comment = \<lparr>id_event = ''c1'', pubkey = ''bob'', kind = 1111, created_at = 130,
                 content = ''nice'', tags = [[''E'', ''video1'']]\<rparr>"

definition netted_relay :: relay where
  "netted_relay = table_relay
     [(interaction_filters ''video1'' ''alice'' None None, [ex_like, ex_repost]),
      (delete_filters ''alice'' [ex_like, ex_repost], [ex_unlike])]"

definition relike_relay :: relay where
  "relike_relay = table_relay
     [(interaction_filters ''video1'' ''alice'' None None, [ex_like, ex_relike]),
      (delete_filters ''alice'' [ex_like, ex_relike], [ex_unlike])]"

definition ex_contacts_old :: event where
  "ex_contacts_old = \<lparr>id_event = ''k1'', pubkey = ''alice'', kind = 3, created_at = 10,
                      content = [], tags = [[''p'', ''carol'']]\<rparr>"

definition ex_contacts :: event where
  "ex_contacts = \<lparr>id_event = ''k2'', pubkey = ''alice'', kind = 3, created_at = 20,
                  content = [],
                  tags = [[''p'', ''bob''], [''p'', []], [''t'', ''nostr''], [''p'', ''dave'']]\<rparr>"

definition ex_contacts_bob :: event where
  "ex_contacts_bob = \<lparr>id_event = ''k3'', pubkey = ''bob'', kind = 3, created_at = 15,
                      content = [], tags = [[''p'', ''alice'']]\<rparr>"

definition ex_contacts_far :: event where
  "ex_contacts_far = \<lparr>id_event = ''k4'', pubkey = ''alice'', kind = 3,
                      created_at = 8640000000001, content = [], tags = [[''p'', ''bob'']]\<rparr>"

definition far_relay :: relay where
  "far_relay = table_relay [([following_queryFilter ''alice''], [ex_contacts_far])]"

definition ex_new_URL :: "string \<Rightarrow> error + URL" where
  "ex_new_URL s =
     (if s = ''wss://relay.divine.video'' then Inr \<lparr>hostname = ''relay.divine.video''\<rparr>
      else if s = ''wss://relay.damus.io'' then Inr \<lparr>hostname = ''relay.damus.io''\<rparr>
      else Inl (Thrown ''TypeError''))"

definition metrics_relay :: relay where
  "metrics_relay = table_relay
     [(metrics_filters ''video1'' None None,
         [ex_like, ex_dislike, ex_repost, ex_like, ex_relike, ex_comment, ex_repost]),
      (interaction_filters ''video1'' ''bob'' None None, [ex_dislike]),
      (delete_filters ''bob'' [ex_dislike], [])]"

definition half_relay :: relay where
  "half_relay = table_relay [(interaction_filters ''video1'' ''alice'' None None, [ex_like])]"

definition follow_relay :: relay where
  "follow_relay = table_relay
     [([following_queryFilter ''alice''], [ex_contacts_old, ex_contacts]),
      ([followers_queryFilter ''alice''], [ex_contacts_bob]),
      ([followers_queryFilter ''carol''], [ex_contacts_old, ex_contacts_bob, ex_contacts])]"

definition other_relay :: relay where
  "other_relay = table_relay
     [(metrics_filters ''video1'' None None,
         [ex_like, ex_dislike, ex_repost, ex_like, ex_relike, ex_comment, ex_repost]),
      (interaction_filters ''video1'' ''alice'' None None, [ex_like, ex_relike]),
      (delete_filters ''alice'' [ex_like, ex_relike], [ex_unlike]),
      ([following_queryFilter ''alice''], [ex_contacts_old, ex_contacts]),
      ([followers_queryFilter ''carol''], [ex_contacts_old, ex_contacts_bob, ex_contacts])]"

section \<open>Properties\<close>

subsection \<open>Deduplication by identifier\<close>

lemma map_set_keys:
  "map fst (map_set m k v) = (if k \<in> set (map fst m) then map fst m else map fst m @ [k])"
  by (induction m) (auto simp: rev_image_eqI)

lemma map_set_values: "set (map_set m k v) \<subseteq> insert (k, v) (set m)"
  by (induction m) (auto split: if_splits)

lemma keyed_map_set: "keyed m \<Longrightarrow> keyed (map_set m (id_event e) e)"
  unfolding keyed_def by (induction m) (auto simp: map_set_keys)

lemma fold_map_set:
  "keyed m \<Longrightarrow>
   keyed (fold (\<lambda>event m. map_set m (id_event event) event) xs m) \<and>
   fst ` set (fold (\<lambda>event m. map_set m (id_event event) event) xs m)
     = fst ` set m \<union> id_event ` set xs \<and>
   snd ` set (fold (\<lambda>event m. map_set m (id_event event) event) xs m)
     \<subseteq> snd ` set m \<union> set xs"
proof (induction xs arbitrary: m)
  case Nil
  then show ?case by simp
next
  case (Cons x xs)
  let ?m' = "map_set m (id_event x) x"
  have k: "keyed ?m'" using Cons.prems by (rule keyed_map_set)
  have v: "snd ` set ?m' \<subseteq> insert x (snd ` set m)"
    using map_set_values [of m "id_event x" x] by force
  have f: "fst ` set ?m' = insert (id_event x) (fst ` set m)"
  proof (cases "id_event x \<in> set (map fst m)")
    case True
    with map_set_keys [of m "id_event x" x] have "map fst ?m' = map fst m" by simp
    then have "set (map fst ?m') = set (map fst m)" by simp
    with True show ?thesis by auto
  next
    case False
    with map_set_keys [of m "id_event x" x] have "map fst ?m' = map fst m @ [id_event x]"
      by simp
    then have "set (map fst ?m') = set (map fst m @ [id_event x])" by simp
    then show ?thesis by simp
  qed
  note ih = Cons.IH [OF k]
  have 1: "keyed (fold (\<lambda>event m. map_set m (id_event event) event) (x # xs) m)"
    using ih by simp
  have 2: "fst ` set (fold (\<lambda>event m. map_set m (id_event event) event) (x # xs) m)
     = fst ` set m \<union> id_event ` set (x # xs)"
    using ih f by simp
  have 3: "snd ` set (fold (\<lambda>event m. map_set m (id_event event) event) (x # xs) m)
     \<subseteq> snd ` set m \<union> set (x # xs)"
  proof -
    have "snd ` set (fold (\<lambda>event m. map_set m (id_event event) event) xs ?m')
       \<subseteq> snd ` set ?m' \<union> set xs" using ih by simp
    also have "\<dots> \<subseteq> insert x (snd ` set m) \<union> set xs" using v by blast
    finally show ?thesis by auto
  qed
  from 1 2 3 show ?case by blast
qed

lemma fold_map_set_ids:
  assumes "keyed m"
  shows "map id_event (map_values m) = map fst m"
  using assms by (induction m) (auto simp: keyed_def map_values_def)

lemma uniqueEvents_distinct_ids: "distinct (map id_event (uniqueEvents xs))"
proof -
  let ?m = "fold (\<lambda>event m. map_set m (id_event event) event) xs []"
  have k: "keyed ?m" using fold_map_set [of "[]" xs] by (simp add: keyed_def)
  from fold_map_set_ids [OF k] k show ?thesis
    by (simp add: uniqueEvents_def keyed_def)
qed

lemma uniqueEvents_ids: "id_event ` set (uniqueEvents xs) = id_event ` set xs"
proof -
  let ?m = "fold (\<lambda>event m. map_set m (id_event event) event) xs []"
  have k: "keyed ?m" using fold_map_set [of "[]" xs] by (simp add: keyed_def)
  have "id_event ` set (map_values ?m) = set (map id_event (map_values ?m))"
    by simp
  also have "\<dots> = fst ` set ?m" by (simp add: fold_map_set_ids [OF k])
  also have "\<dots> = id_event ` set xs"
    using fold_map_set [of "[]" xs] by (simp add: keyed_def)
  finally show ?thesis by (simp add: uniqueEvents_def)
qed

lemma uniqueEvents_subset: "set (uniqueEvents xs) \<subseteq> set xs"
  using fold_map_set [of "[]" xs] by (simp add: keyed_def uniqueEvents_def map_values_def)

lemma uniqueEvents_distinct: "distinct (uniqueEvents xs)"
  using uniqueEvents_distinct_ids [of xs] by (simp add: distinct_map)

lemma uniqueEvents_set_inj:
  assumes "inj_on id_event (set xs)"
  shows "set (uniqueEvents xs) = set xs"
proof
  show "set (uniqueEvents xs) \<subseteq> set xs" by (rule uniqueEvents_subset)
  show "set xs \<subseteq> set (uniqueEvents xs)"
  proof
    fix e assume e: "e \<in> set xs"
    then have "id_event e \<in> id_event ` set (uniqueEvents xs)"
      by (simp add: uniqueEvents_ids)
    then obtain e' where e': "e' \<in> set (uniqueEvents xs)" "id_event e' = id_event e"
      by auto
    with uniqueEvents_subset have "e' \<in> set xs" by auto
    with assms e e' have "e' = e" by (auto dest: inj_onD)
    with e' show "e \<in> set (uniqueEvents xs)" by simp
  qed
qed

lemma unique2: "id_event a \<noteq> id_event b \<Longrightarrow> uniqueEvents [a, b] = [a, b]"
  by (simp add: uniqueEvents_def map_values_def)

lemma metrics_relay_unique:
  "uniqueEvents [ex_like, ex_dislike, ex_repost, ex_like, ex_relike, ex_comment, ex_repost]
     = [ex_like, ex_dislike, ex_repost, ex_relike, ex_comment]"
  by (simp add: uniqueEvents_def map_values_def ex_like_def ex_dislike_def ex_repost_def ex_relike_def ex_comment_def)

subsection \<open>Counting\<close>

lemma fold_count_event:
  "fold count_event es m =
     \<lparr>likeCount = likeCount m + length (filter (\<lambda>e. kind e = 7 \<and> content e \<in> {''+'', heart, thumbs_up}) es),
      repostCount = repostCount m + length (filter (\<lambda>e. kind e = 6) es),
      viewCount = viewCount m + length (filter (\<lambda>e. kind e = 9735) es),
      commentCount = commentCount m + length (filter (\<lambda>e. kind e = 1 \<or> kind e = 1111) es)\<rparr>"
  by (induction es arbitrary: m) (auto simp: count_event_def)

text \<open>
  C3. An event that the relay returns several times in answer to one aggregator call is
  counted once. For every response, the counts are taken over the deduplicated list, in
  which no identifier occurs twice and which holds exactly the identifiers of the
  response; when equal identifiers mean equal events in the response, each count is the
  number of different events of its class in the response.
\<close>

theorem metrics_count_once:
  assumes "nostr (metrics_filters videoId videoPubkey vineId) = Inr allEvents"
  shows "distinct (map id_event (uniqueEvents allEvents)) \<and>
     id_event ` set (uniqueEvents allEvents) = id_event ` set allEvents \<and>
     useVideoSocialMetrics nostr videoId videoPubkey vineId =
       Inr \<lparr>likeCount = length (filter (\<lambda>e. kind e = 7 \<and> content e \<in> {''+'', heart, thumbs_up})
                                  (uniqueEvents allEvents)),
            repostCount = length (filter (\<lambda>e. kind e = 6) (uniqueEvents allEvents)),
            viewCount = length (filter (\<lambda>e. kind e = 9735) (uniqueEvents allEvents)),
            commentCount = length (filter (\<lambda>e. kind e = 1 \<or> kind e = 1111)
                                     (uniqueEvents allEvents))\<rparr> \<and>
     (inj_on id_event (set allEvents) \<longrightarrow>
        useVideoSocialMetrics nostr videoId videoPubkey vineId =
          Inr \<lparr>likeCount = card {e \<in> set allEvents.
                                  kind e = 7 \<and> content e \<in> {''+'', heart, thumbs_up}},
               repostCount = card {e \<in> set allEvents. kind e = 6},
               viewCount = card {e \<in> set allEvents. kind e = 9735},
               commentCount = card {e \<in> set allEvents. kind e = 1 \<or> kind e = 1111}\<rparr>)"
proof -
  have r: "useVideoSocialMetrics nostr videoId videoPubkey vineId =
       Inr \<lparr>likeCount = length (filter (\<lambda>e. kind e = 7 \<and> content e \<in> {''+'', heart, thumbs_up})
                                  (uniqueEvents allEvents)),
            repostCount = length (filter (\<lambda>e. kind e = 6) (uniqueEvents allEvents)),
            viewCount = length (filter (\<lambda>e. kind e = 9735) (uniqueEvents allEvents)),
            commentCount = length (filter (\<lambda>e. kind e = 1 \<or> kind e = 1111)
                                     (uniqueEvents allEvents))\<rparr>"
    using assms
    by (simp add: useVideoSocialMetrics_def try_catch_def fold_count_event zero_metrics_def)
  have c: "length (filter P (uniqueEvents allEvents)) = card {e \<in> set allEvents. P e}"
    if inj: "inj_on id_event (set allEvents)" for P
  proof -
    have "length (filter P (uniqueEvents allEvents))
            = card ({e. P e} \<inter> set (uniqueEvents allEvents))"
      using uniqueEvents_distinct by (simp add: distinct_length_filter)
    also have "{e. P e} \<inter> set (uniqueEvents allEvents) = {e \<in> set allEvents. P e}"
      using uniqueEvents_set_inj [OF inj] by auto
    finally show ?thesis .
  qed
  show ?thesis
  proof (intro conjI impI)
    show "distinct (map id_event (uniqueEvents allEvents))"
      by (rule uniqueEvents_distinct_ids)
    show "id_event ` set (uniqueEvents allEvents) = id_event ` set allEvents"
      by (rule uniqueEvents_ids)
    show "useVideoSocialMetrics nostr videoId videoPubkey vineId =
       Inr \<lparr>likeCount = length (filter (\<lambda>e. kind e = 7 \<and> content e \<in> {''+'', heart, thumbs_up})
                                  (uniqueEvents allEvents)),
            repostCount = length (filter (\<lambda>e. kind e = 6) (uniqueEvents allEvents)),
            viewCount = length (filter (\<lambda>e. kind e = 9735) (uniqueEvents allEvents)),
            commentCount = length (filter (\<lambda>e. kind e = 1 \<or> kind e = 1111)
                                     (uniqueEvents allEvents))\<rparr>"
      by (rule r)
  next
    assume "inj_on id_event (set allEvents)"
    then show "useVideoSocialMetrics nostr videoId videoPubkey vineId =
          Inr \<lparr>likeCount = card {e \<in> set allEvents.
                                  kind e = 7 \<and> content e \<in> {''+'', heart, thumbs_up}},
               repostCount = card {e \<in> set allEvents. kind e = 6},
               viewCount = card {e \<in> set allEvents. kind e = 9735},
               commentCount = card {e \<in> set allEvents. kind e = 1 \<or> kind e = 1111}\<rparr>"
      by (simp add: r c)
  qed
qed

theorem metrics_count_once_witness:
  "inj_on id_event (set [ex_like, ex_dislike, ex_repost, ex_like, ex_relike, ex_comment, ex_repost]) \<and>
   useVideoSocialMetrics metrics_relay ''video1'' None None =
     Inr \<lparr>likeCount = 2, repostCount = 1, viewCount = 0, commentCount = 1\<rparr>"
proof -
  let ?all = "[ex_like, ex_dislike, ex_repost, ex_like, ex_relike, ex_comment, ex_repost]"
  have h1: "metrics_relay (metrics_filters ''video1'' None None) = Inr ?all"
    by (simp add: metrics_relay_def table_relay_def)
  have s: "set ?all = set [ex_like, ex_dislike, ex_repost, ex_relike, ex_comment]" by auto
  have "distinct (map id_event [ex_like, ex_dislike, ex_repost, ex_relike, ex_comment])"
    by (simp add: ex_like_def ex_dislike_def ex_repost_def ex_relike_def ex_comment_def heart_def thumbs_up_def)
  then have "inj_on id_event (set [ex_like, ex_dislike, ex_repost, ex_relike, ex_comment])"
    by (simp only: distinct_map)
  then have h2: "inj_on id_event (set ?all)" by (simp only: s)
  have d: "distinct [ex_like, ex_dislike, ex_repost, ex_relike, ex_comment]"
    by (simp add: ex_like_def ex_dislike_def ex_repost_def ex_relike_def ex_comment_def heart_def thumbs_up_def)
  have c: "card {e \<in> set ?all. P e}
             = length (filter P [ex_like, ex_dislike, ex_repost, ex_relike, ex_comment])" for P
  proof -
    have "{e \<in> set ?all. P e} = {e. P e} \<inter> set [ex_like, ex_dislike, ex_repost, ex_relike, ex_comment]"
      by auto
    with d show ?thesis by (simp only: distinct_length_filter)
  qed
  have "useVideoSocialMetrics metrics_relay ''video1'' None None =
     Inr \<lparr>likeCount = 2, repostCount = 1, viewCount = 0, commentCount = 1\<rparr>"
  proof -
    from metrics_count_once [of metrics_relay "''video1''" None None ?all, OF h1] h2
    have "useVideoSocialMetrics metrics_relay ''video1'' None None =
      Inr \<lparr>likeCount = card {e \<in> set ?all. kind e = 7 \<and> content e \<in> {''+'', heart, thumbs_up}},
           repostCount = card {e \<in> set ?all. kind e = 6},
           viewCount = card {e \<in> set ?all. kind e = 9735},
           commentCount = card {e \<in> set ?all. kind e = 1 \<or> kind e = 1111}\<rparr>"
      by blast
    then show ?thesis
      by (simp only: c) (simp add: ex_like_def ex_dislike_def ex_repost_def ex_relike_def ex_comment_def heart_def thumbs_up_def)
  qed
  with h2 show ?thesis by simp
qed

subsection \<open>Empty response\<close>

text \<open>
  C5. When the relay answers the aggregator's query with the empty list, the snapshot has
  likeCount = repostCount = viewCount = commentCount = 0.
\<close>

theorem metrics_empty_response:
  assumes "nostr (metrics_filters videoId videoPubkey vineId) = Inr []"
  shows "useVideoSocialMetrics nostr videoId videoPubkey vineId =
           Inr \<lparr>likeCount = 0, repostCount = 0, viewCount = 0, commentCount = 0\<rparr>"
  using assms
  by (simp add: useVideoSocialMetrics_def try_catch_def uniqueEvents_def map_values_def
      zero_metrics_def)

theorem metrics_empty_response_witness:
  "useVideoSocialMetrics (\<lambda>fs. Inr []) ''v1'' (Some ''author'') (Some ''slug'') =
     Inr \<lparr>likeCount = 0, repostCount = 0, viewCount = 0, commentCount = 0\<rparr>"
  using metrics_empty_response [of "\<lambda>fs. Inr []" "''v1''" "Some ''author''" "Some ''slug''"]
  by simp

subsection \<open>Deletion set and the interaction loop\<close>

lemma add_deleted_iff:
  "v \<in> add_deleted tag s \<longleftrightarrow>
     v \<in> s \<or> (tag_at tag 0 = Some ''e'' \<and> tag_at tag (Suc 0) = Some v \<and> v \<noteq> [])"
  by (auto simp: add_deleted_def truthy_def split: option.splits)

lemma fold_add_deleted:
  "v \<in> fold add_deleted ts s \<longleftrightarrow>
     v \<in> s \<or> list_ex (\<lambda>tag. tag_at tag 0 = Some ''e'' \<and> tag_at tag (Suc 0) = Some v \<and> v \<noteq> []) ts"
  by (induction ts arbitrary: s) (auto simp: add_deleted_iff)

lemma fold_deleted:
  "v \<in> fold (\<lambda>deleteEvent s. fold add_deleted (tags deleteEvent) s) ds s \<longleftrightarrow>
     v \<in> s \<or> list_ex (\<lambda>d. list_ex (\<lambda>tag. tag_at tag 0 = Some ''e'' \<and> tag_at tag (Suc 0) = Some v \<and> v \<noteq> []) (tags d)) ds"
  by (induction ds arbitrary: s) (auto simp: fold_add_deleted)

lemma deletedEventIds_iff:
  "v \<in> deletedEventIds ds \<longleftrightarrow>
     list_ex (\<lambda>d. list_ex (\<lambda>tag. tag_at tag 0 = Some ''e'' \<and> tag_at tag (Suc 0) = Some v \<and> v \<noteq> []) (tags d)) ds"
  by (simp add: deletedEventIds_def fold_deleted)

lemma fold_interaction_hasLiked:
  "hasLiked (fold (interaction_step del) es r) =
     (hasLiked r \<or> list_ex (\<lambda>e. id_event e \<notin> del \<and> kind e = 7 \<and> content e \<in> {''+'', heart, thumbs_up}) es)"
  by (induction es arbitrary: r) (auto simp: interaction_step_def Let_def)

lemma fold_interaction_hasReposted:
  "hasReposted (fold (interaction_step del) es r) =
     (hasReposted r \<or> list_ex (\<lambda>e. id_event e \<notin> del \<and> kind e = 6) es)"
  by (induction es arbitrary: r) (auto simp: interaction_step_def Let_def)

lemma interaction_step_inv:
  "hasLiked r = (likeEventId r \<noteq> None) \<and> hasReposted r = (repostEventId r \<noteq> None) \<Longrightarrow>
   hasLiked (interaction_step del e r) = (likeEventId (interaction_step del e r) \<noteq> None) \<and>
   hasReposted (interaction_step del e r) = (repostEventId (interaction_step del e r) \<noteq> None)"
  by (simp add: interaction_step_def Let_def)

lemma fold_interaction_inv:
  "hasLiked r = (likeEventId r \<noteq> None) \<and> hasReposted r = (repostEventId r \<noteq> None) \<Longrightarrow>
   hasLiked (fold (interaction_step del) es r) = (likeEventId (fold (interaction_step del) es r) \<noteq> None) \<and>
   hasReposted (fold (interaction_step del) es r) = (repostEventId (fold (interaction_step del) es r) \<noteq> None)"
proof (induction es arbitrary: r)
  case Nil
  then show ?case by simp
next
  case (Cons e es)
  from Cons.IH [OF interaction_step_inv [OF Cons.prems]] show ?case by simp
qed

subsection \<open>Relationship lookup\<close>

text \<open>
  C1, as the code has it. A like whose identifier is in the deletion set is skipped, and
  only such a like: when every positive reaction that the relay returns for the viewer and
  the target has a non-empty identifier carried by an \<open>'e'\<close> tag of a returned delete
  event, the lookup answers hasLiked = false and likeEventId = null. Neither the
  author nor the time of the delete event is looked at by the code.
\<close>

theorem deleted_likes_netted:
  assumes "u \<noteq> []"
    and "nostr (interaction_filters videoId u videoPubkey vineId) = Inr allEvents"
    and "nostr (delete_filters u (uniqueEvents allEvents)) = Inr deleteEvents"
    and "\<forall>e \<in> set allEvents. kind e = 7 \<and> content e \<in> {''+'', heart, thumbs_up} \<longrightarrow>
           id_event e \<noteq> [] \<and>
           (\<exists>d \<in> set deleteEvents. \<exists>tag \<in> set (tags d).
              tag_at tag 0 = Some ''e'' \<and> tag_at tag 1 = Some (id_event e))"
  shows "\<exists>r. useVideoUserInteractions nostr videoId (Some u) videoPubkey vineId = Inr r \<and>
             hasLiked r = False \<and> likeEventId r = None"
proof -
  let ?del = "deletedEventIds deleteEvents"
  let ?r = "fold (interaction_step ?del) (uniqueEvents allEvents) no_interactions"
  have res: "useVideoUserInteractions nostr videoId (Some u) videoPubkey vineId = Inr ?r"
    using assms(1-3) by (simp add: useVideoUserInteractions_def try_catch_def Let_def)
  have "\<not> list_ex (\<lambda>e. id_event e \<notin> ?del \<and> kind e = 7 \<and> content e \<in> {''+'', heart, thumbs_up})
          (uniqueEvents allEvents)"
  proof
    assume "list_ex (\<lambda>e. id_event e \<notin> ?del \<and> kind e = 7 \<and> content e \<in> {''+'', heart, thumbs_up})
          (uniqueEvents allEvents)"
    then obtain e where e: "e \<in> set (uniqueEvents allEvents)" "id_event e \<notin> ?del"
      "kind e = 7" "content e \<in> {''+'', heart, thumbs_up}"
      by (auto simp: list_ex_iff)
    from e(1) uniqueEvents_subset have "e \<in> set allEvents" by auto
    with assms(4) e(3,4) have "id_event e \<noteq> []"
      "\<exists>d \<in> set deleteEvents. \<exists>tag \<in> set (tags d).
              tag_at tag 0 = Some ''e'' \<and> tag_at tag 1 = Some (id_event e)" by auto
    then have "id_event e \<in> ?del"
      by (auto simp: deletedEventIds_iff list_ex_iff)
    with e(2) show False by simp
  qed
  then have l: "hasLiked ?r = False"
    by (simp add: fold_interaction_hasLiked no_interactions_def)
  have "hasLiked ?r = (likeEventId ?r \<noteq> None)"
    using fold_interaction_inv [of no_interactions ?del "uniqueEvents allEvents"]
    by (simp add: no_interactions_def)
  with l have "likeEventId ?r = None" by simp
  with res l show ?thesis by simp
qed

theorem deleted_likes_netted_witness:
  "netted_relay (interaction_filters ''video1'' ''alice'' None None) = Inr [ex_like, ex_repost] \<and>
   netted_relay (delete_filters ''alice'' (uniqueEvents [ex_like, ex_repost])) = Inr [ex_unlike] \<and>
   (\<exists>r. useVideoUserInteractions netted_relay ''video1'' (Some ''alice'') None None = Inr r \<and>
        hasLiked r = False \<and> likeEventId r = None)"
proof -
  have u: "uniqueEvents [ex_like, ex_repost] = [ex_like, ex_repost]"
    by (rule unique2) (simp add: ex_like_def ex_repost_def ex_unlike_def heart_def thumbs_up_def)
  have h1: "''alice'' \<noteq> []" by simp
  have h2: "netted_relay (interaction_filters ''video1'' ''alice'' None None)
              = Inr [ex_like, ex_repost]"
    by (simp add: netted_relay_def table_relay_def)
  have h3: "netted_relay (delete_filters ''alice'' (uniqueEvents [ex_like, ex_repost]))
              = Inr [ex_unlike]"
    by (simp add: u netted_relay_def table_relay_def interaction_filters_def delete_filters_def
        addressableRef_def)
  have h4: "\<forall>e \<in> set [ex_like, ex_repost].
      kind e = 7 \<and> content e \<in> {''+'', heart, thumbs_up} \<longrightarrow>
      id_event e \<noteq> [] \<and>
      (\<exists>d \<in> set [ex_unlike]. \<exists>tag \<in> set (tags d).
         tag_at tag 0 = Some ''e'' \<and> tag_at tag 1 = Some (id_event e))"
    by (simp add: ex_like_def ex_repost_def ex_unlike_def heart_def thumbs_up_def tag_at_def)
  from deleted_likes_netted [OF h1 h2 h3 h4] h2 h3 show ?thesis by blast
qed

text \<open>
  The claim as it is worded fails when the viewer likes again after the deletion: the
  viewer has the like \<open>e1\<close> and the later delete event \<open>d1\<close> that references it, and
  the lookup answers hasLiked = true from the second like \<open>e2\<close>.
\<close>

theorem relike_counterexample:
  "relike_relay (interaction_filters ''video1'' ''alice'' None None) = Inr [ex_like, ex_relike] \<and>
   relike_relay (delete_filters ''alice'' (uniqueEvents [ex_like, ex_relike])) = Inr [ex_unlike] \<and>
   kind ex_like = 7 \<and> content ex_like = ''+'' \<and> pubkey ex_like = ''alice'' \<and>
   [''e'', ''video1''] \<in> set (tags ex_like) \<and>
   kind ex_unlike = 5 \<and> pubkey ex_unlike = ''alice'' \<and>
   created_at ex_like < created_at ex_unlike \<and>
   [''e'', id_event ex_like] \<in> set (tags ex_unlike) \<and>
   useVideoUserInteractions relike_relay ''video1'' (Some ''alice'') None None =
     Inr \<lparr>hasLiked = True, hasReposted = False, likeEventId = Some ''e2'', repostEventId = None\<rparr>"
proof -
  have u: "uniqueEvents [ex_like, ex_relike] = [ex_like, ex_relike]"
    by (rule unique2) (simp add: ex_like_def ex_relike_def ex_unlike_def heart_def thumbs_up_def)
  have h2: "relike_relay (interaction_filters ''video1'' ''alice'' None None)
              = Inr [ex_like, ex_relike]"
    by (simp add: relike_relay_def table_relay_def)
  have h3: "relike_relay (delete_filters ''alice'' (uniqueEvents [ex_like, ex_relike]))
              = Inr [ex_unlike]"
    by (simp add: u relike_relay_def table_relay_def interaction_filters_def delete_filters_def
        addressableRef_def)
  have d: "deletedEventIds [ex_unlike] = {''e1''}"
    by (simp add: deletedEventIds_def add_deleted_def tag_at_def truthy_def ex_like_def ex_relike_def ex_unlike_def heart_def thumbs_up_def)
  have r: "useVideoUserInteractions relike_relay ''video1'' (Some ''alice'') None None =
     Inr \<lparr>hasLiked = True, hasReposted = False, likeEventId = Some ''e2'', repostEventId = None\<rparr>"
    using h2 h3
    by (simp add: useVideoUserInteractions_def try_catch_def Let_def u d)
       (simp add: interaction_step_def no_interactions_def ex_like_def ex_relike_def ex_unlike_def heart_def thumbs_up_def)
  show ?thesis using h2 h3 r by (simp add: ex_like_def ex_relike_def ex_unlike_def heart_def thumbs_up_def)
qed

text \<open>
  C9. On every return path of the relationship lookup (no viewer, a failed query, the
  normal path) the record has hasLiked exactly when likeEventId is not null, and
  hasReposted exactly when repostEventId is not null.
\<close>

theorem interactions_invariant:
  "\<exists>r. useVideoUserInteractions nostr videoId userPubkey videoPubkey vineId = Inr r \<and>
        hasLiked r = (likeEventId r \<noteq> None) \<and> hasReposted r = (repostEventId r \<noteq> None)"
proof -
  have z: "hasLiked no_interactions = (likeEventId no_interactions \<noteq> None) \<and>
           hasReposted no_interactions = (repostEventId no_interactions \<noteq> None)"
    by (simp add: no_interactions_def)
  show ?thesis
    using z fold_interaction_inv [OF z]
    by (auto simp: useVideoUserInteractions_def try_catch_def Let_def
        split: option.splits sum.splits)
qed

theorem interactions_invariant_witness:
  "(\<exists>r. useVideoUserInteractions relike_relay ''video1'' None None None = Inr r \<and>
        hasLiked r = (likeEventId r \<noteq> None) \<and> hasReposted r = (repostEventId r \<noteq> None)) \<and>
   (\<exists>r. useVideoUserInteractions (table_relay []) ''video1'' (Some ''alice'') None None = Inr r \<and>
        hasLiked r = (likeEventId r \<noteq> None) \<and> hasReposted r = (repostEventId r \<noteq> None)) \<and>
   (\<exists>r. useVideoUserInteractions relike_relay ''video1'' (Some ''alice'') None None = Inr r \<and>
        hasLiked r = (likeEventId r \<noteq> None) \<and> hasReposted r = (repostEventId r \<noteq> None))"
  using interactions_invariant [of relike_relay "''video1''" None None None]
    interactions_invariant [of "table_relay []" "''video1''" "Some ''alice''" None None]
    interactions_invariant [of relike_relay "''video1''" "Some ''alice''" None None]
  by blast

subsection \<open>Reaction classification\<close>

text \<open>
  C2. A reaction (kind 7) counts as a like exactly when its content is one of \<open>+\<close>, the
  heart and the thumbs-up: likeCount is the number of such events in the deduplicated
  response, so no other reaction increments it, and hasLiked holds exactly when the
  deduplicated response of the lookup has such an event that is not deleted.
\<close>

theorem reaction_classification:
  "(nostr (metrics_filters videoId videoPubkey vineId) = Inr allEvents \<longrightarrow>
      (\<exists>m. useVideoSocialMetrics nostr videoId videoPubkey vineId = Inr m \<and>
           likeCount m = length (filter (\<lambda>e. kind e = 7 \<and> content e \<in> {''+'', heart, thumbs_up})
                                   (uniqueEvents allEvents)))) \<and>
   (u \<noteq> [] \<and> nostr (interaction_filters videoId u videoPubkey vineId) = Inr userEvents \<and>
    nostr (delete_filters u (uniqueEvents userEvents)) = Inr deleteEvents \<longrightarrow>
      (\<exists>r. useVideoUserInteractions nostr videoId (Some u) videoPubkey vineId = Inr r \<and>
           hasLiked r = (\<exists>e \<in> set (uniqueEvents userEvents).
                           id_event e \<notin> deletedEventIds deleteEvents \<and>
                           kind e = 7 \<and> content e \<in> {''+'', heart, thumbs_up})))"
proof (intro conjI impI)
  assume "nostr (metrics_filters videoId videoPubkey vineId) = Inr allEvents"
  then show "\<exists>m. useVideoSocialMetrics nostr videoId videoPubkey vineId = Inr m \<and>
           likeCount m = length (filter (\<lambda>e. kind e = 7 \<and> content e \<in> {''+'', heart, thumbs_up})
                                   (uniqueEvents allEvents))"
    by (simp add: useVideoSocialMetrics_def try_catch_def fold_count_event zero_metrics_def)
next
  assume "u \<noteq> [] \<and> nostr (interaction_filters videoId u videoPubkey vineId) = Inr userEvents \<and>
    nostr (delete_filters u (uniqueEvents userEvents)) = Inr deleteEvents"
  then show "\<exists>r. useVideoUserInteractions nostr videoId (Some u) videoPubkey vineId = Inr r \<and>
           hasLiked r = (\<exists>e \<in> set (uniqueEvents userEvents).
                           id_event e \<notin> deletedEventIds deleteEvents \<and>
                           kind e = 7 \<and> content e \<in> {''+'', heart, thumbs_up})"
    by (simp add: useVideoUserInteractions_def try_catch_def Let_def fold_interaction_hasLiked
        no_interactions_def list_ex_iff)
qed

theorem reaction_classification_witness:
  "(\<exists>m. useVideoSocialMetrics metrics_relay ''video1'' None None = Inr m \<and> likeCount m = 2) \<and>
   (\<exists>r. useVideoUserInteractions metrics_relay ''video1'' (Some ''bob'') None None = Inr r \<and>
        hasLiked r = False)"
proof -
  let ?all = "[ex_like, ex_dislike, ex_repost, ex_like, ex_relike, ex_comment, ex_repost]"
  have u: "uniqueEvents [ex_dislike] = [ex_dislike]"
    by (simp add: uniqueEvents_def map_values_def)
  have h1: "metrics_relay (metrics_filters ''video1'' None None) = Inr ?all"
    by (simp add: metrics_relay_def table_relay_def)
  have h2: "''bob'' \<noteq> [] \<and>
            metrics_relay (interaction_filters ''video1'' ''bob'' None None) = Inr [ex_dislike] \<and>
            metrics_relay (delete_filters ''bob'' (uniqueEvents [ex_dislike])) = Inr []"
    by (simp add: u metrics_relay_def table_relay_def metrics_filters_def
        interaction_filters_def delete_filters_def addressableRef_def)
  have c: "length (filter (\<lambda>e. kind e = 7 \<and> content e \<in> {''+'', heart, thumbs_up})
             (uniqueEvents ?all)) = 2"
    by (simp add: metrics_relay_unique) (simp add: ex_like_def ex_dislike_def ex_repost_def ex_relike_def ex_comment_def heart_def thumbs_up_def)
  have n: "\<not> (\<exists>e \<in> set (uniqueEvents [ex_dislike]).
                id_event e \<notin> deletedEventIds [] \<and>
                kind e = 7 \<and> content e \<in> {''+'', heart, thumbs_up})"
    by (simp add: u) (simp add: ex_like_def ex_dislike_def ex_repost_def ex_relike_def ex_comment_def heart_def thumbs_up_def)
  from reaction_classification [of metrics_relay "''video1''" None None ?all "''bob''"
      "[ex_dislike]" "[]"] h1 h2 c n
  show ?thesis by auto
qed

subsection \<open>Failures\<close>

lemma try_catch_total: "\<exists>v. try_catch body (\<lambda>err. Inr d) = Inr v"
  by (cases body) (simp_all add: try_catch_def)

text \<open>
  C4. No hook throws: each returns a value for every relay and every argument. When the
  relay query fails (for the relationship lookup: the query for the interactions, or the
  query for the delete events after it), the hook returns its default: the all-zero
  metrics, the all-false record with null identifiers, the empty list.
\<close>

theorem failures_degrade_to_defaults:
  "(\<exists>m. useVideoSocialMetrics nostr videoId videoPubkey vineId = Inr m) \<and>
   (\<exists>r. useVideoUserInteractions nostr videoId userPubkey videoPubkey vineId = Inr r) \<and>
   (\<exists>fs. useFollowers nostr subject = Inr fs) \<and>
   (\<exists>fs. useFollowing nostr subject = Inr fs) \<and>
   (nostr (metrics_filters videoId videoPubkey vineId) = Inl err \<longrightarrow>
      useVideoSocialMetrics nostr videoId videoPubkey vineId =
        Inr \<lparr>likeCount = 0, repostCount = 0, viewCount = 0, commentCount = 0\<rparr>) \<and>
   (nostr (interaction_filters videoId u videoPubkey vineId) = Inl err \<or>
    (nostr (interaction_filters videoId u videoPubkey vineId) = Inr allEvents \<and>
     nostr (delete_filters u (uniqueEvents allEvents)) = Inl err) \<longrightarrow>
      useVideoUserInteractions nostr videoId (Some u) videoPubkey vineId =
        Inr \<lparr>hasLiked = False, hasReposted = False, likeEventId = None, repostEventId = None\<rparr>) \<and>
   (nostr [followers_queryFilter pk] = Inl err \<longrightarrow> useFollowers nostr (Some pk) = Inr []) \<and>
   (nostr [following_queryFilter pk] = Inl err \<longrightarrow> useFollowing nostr (Some pk) = Inr [])"
proof (intro conjI impI)
  show "\<exists>m. useVideoSocialMetrics nostr videoId videoPubkey vineId = Inr m"
    unfolding useVideoSocialMetrics_def by (rule try_catch_total)
  show "\<exists>r. useVideoUserInteractions nostr videoId userPubkey videoPubkey vineId = Inr r"
    unfolding useVideoUserInteractions_def
    by (simp add: try_catch_total split: option.split)
  show "\<exists>fs. useFollowers nostr subject = Inr fs"
    unfolding useFollowers_def by (simp add: try_catch_total split: option.split)
  show "\<exists>fs. useFollowing nostr subject = Inr fs"
    unfolding useFollowing_def by (simp add: try_catch_total split: option.split)
next
  assume "nostr (metrics_filters videoId videoPubkey vineId) = Inl err"
  then show "useVideoSocialMetrics nostr videoId videoPubkey vineId =
        Inr \<lparr>likeCount = 0, repostCount = 0, viewCount = 0, commentCount = 0\<rparr>"
    by (simp add: useVideoSocialMetrics_def try_catch_def zero_metrics_def)
next
  assume "nostr (interaction_filters videoId u videoPubkey vineId) = Inl err \<or>
    (nostr (interaction_filters videoId u videoPubkey vineId) = Inr allEvents \<and>
     nostr (delete_filters u (uniqueEvents allEvents)) = Inl err)"
  then show "useVideoUserInteractions nostr videoId (Some u) videoPubkey vineId =
        Inr \<lparr>hasLiked = False, hasReposted = False, likeEventId = None, repostEventId = None\<rparr>"
    by (auto simp: useVideoUserInteractions_def try_catch_def no_interactions_def Let_def)
next
  assume "nostr [followers_queryFilter pk] = Inl err"
  then show "useFollowers nostr (Some pk) = Inr []"
    by (simp add: useFollowers_def try_catch_def)
next
  assume "nostr [following_queryFilter pk] = Inl err"
  then show "useFollowing nostr (Some pk) = Inr []"
    by (simp add: useFollowing_def try_catch_def)
qed

theorem failures_degrade_to_defaults_witness:
  "useVideoSocialMetrics (table_relay []) ''video1'' None None =
     Inr \<lparr>likeCount = 0, repostCount = 0, viewCount = 0, commentCount = 0\<rparr> \<and>
   useVideoUserInteractions (table_relay []) ''video1'' (Some ''alice'') None None =
     Inr \<lparr>hasLiked = False, hasReposted = False, likeEventId = None, repostEventId = None\<rparr> \<and>
   half_relay (interaction_filters ''video1'' ''alice'' None None) = Inr [ex_like] \<and>
   half_relay (delete_filters ''alice'' (uniqueEvents [ex_like])) = Inl TimeoutError \<and>
   useVideoUserInteractions half_relay ''video1'' (Some ''alice'') None None =
     Inr \<lparr>hasLiked = False, hasReposted = False, likeEventId = None, repostEventId = None\<rparr> \<and>
   useFollowers (table_relay []) (Some ''alice'') = Inr [] \<and>
   useFollowing (table_relay []) (Some ''alice'') = Inr []"
proof -
  have f: "table_relay [] fs = Inl TimeoutError" for fs
    by (simp add: table_relay_def)
  have u: "uniqueEvents [ex_like] = [ex_like]"
    by (simp add: uniqueEvents_def map_values_def)
  have g1: "half_relay (interaction_filters ''video1'' ''alice'' None None) = Inr [ex_like]"
    by (simp add: half_relay_def table_relay_def)
  have g2: "half_relay (delete_filters ''alice'' (uniqueEvents [ex_like])) = Inl TimeoutError"
    by (simp add: u half_relay_def table_relay_def interaction_filters_def delete_filters_def
        addressableRef_def)
  from failures_degrade_to_defaults [of "table_relay []" "''video1''" None None None "Some ''alice''"
      TimeoutError "''alice''" "[]" "''alice''"]
    failures_degrade_to_defaults [of half_relay "''video1''" None None None None
      TimeoutError "''alice''" "[ex_like]" "''alice''"]
    f g1 g2
  show ?thesis by simp
qed

subsection \<open>Follow graph\<close>

lemma fold_set_add:
  "distinct s \<Longrightarrow>
   distinct (fold (\<lambda>event s. set_add s (pubkey event)) evs s) \<and>
   set (fold (\<lambda>event s. set_add s (pubkey event)) evs s) = set s \<union> pubkey ` set evs"
  by (induction evs arbitrary: s) (auto simp: set_add_def)

text \<open>
  C7. The followers list holds the authors of the returned events, each exactly once:
  its elements are pairwise different, its set is the set of authors, and its length is
  the number of different authors.
\<close>

theorem followers_distinct_authors:
  assumes "pk \<noteq> []" and "nostr [followers_queryFilter pk] = Inr contactListEvents"
  shows "\<exists>followers. useFollowers nostr (Some pk) = Inr followers \<and>
           distinct followers \<and> set followers = pubkey ` set contactListEvents \<and>
           length followers = card (pubkey ` set contactListEvents)"
proof (cases "contactListEvents = []")
  case True
  with assms show ?thesis by (simp add: useFollowers_def try_catch_def)
next
  case False
  let ?fs = "fold (\<lambda>event s. set_add s (pubkey event)) contactListEvents []"
  have r: "useFollowers nostr (Some pk) = Inr ?fs"
    using assms False by (simp add: useFollowers_def try_catch_def)
  have d: "distinct ?fs" "set ?fs = pubkey ` set contactListEvents"
    using fold_set_add [of "[]" contactListEvents] by simp_all
  from d have "length ?fs = card (pubkey ` set contactListEvents)"
    by (metis distinct_card)
  with r d show ?thesis by simp
qed

theorem followers_distinct_authors_witness:
  "follow_relay [followers_queryFilter ''carol'']
     = Inr [ex_contacts_old, ex_contacts_bob, ex_contacts] \<and>
   pubkey ex_contacts_old = pubkey ex_contacts \<and>
   useFollowers follow_relay (Some ''carol'') = Inr [''alice'', ''bob'']"
proof -
  have h1: "''carol'' \<noteq> []" by simp
  have h2: "follow_relay [followers_queryFilter ''carol'']
              = Inr [ex_contacts_old, ex_contacts_bob, ex_contacts]"
    by (simp add: follow_relay_def table_relay_def following_queryFilter_def
        followers_queryFilter_def)
  from followers_distinct_authors [of "''carol''" follow_relay
      "[ex_contacts_old, ex_contacts_bob, ex_contacts]", OF h1 h2]
  obtain fs where
    fs: "useFollowers follow_relay (Some ''carol'') = Inr fs" "distinct fs"
      "set fs = pubkey ` set [ex_contacts_old, ex_contacts_bob, ex_contacts]"
    by blast
  have e: "useFollowers follow_relay (Some ''carol'') = Inr [''alice'', ''bob'']"
    using h2 by (simp add: useFollowers_def try_catch_def set_add_def ex_contacts_old_def ex_contacts_def ex_contacts_bob_def)
  with fs(1) have "fs = [''alice'', ''bob'']" by simp
  with fs(1) h2 show ?thesis by (simp add: ex_contacts_old_def ex_contacts_def ex_contacts_bob_def)
qed

lemma following_of_spec: "following_of ev = map Some (following_spec (tags ev))"
proof -
  have "map (\<lambda>tag. tag_at tag 1)
          (filter (\<lambda>tag. truthy (tag_at tag 1)) (filter (\<lambda>tag. tag_at tag 0 = Some ''p'') ts))
        = map Some (List.map_filter p_tag_value ts)" for ts
  proof (induction ts)
    case Nil
    show ?case by (simp add: map_filter_simps)
  next
    case (Cons t ts)
    show ?case
    proof (cases t)
      case Nil
      with Cons show ?thesis by (simp add: map_filter_simps tag_at_def)
    next
      case (Cons k vs)
      note t = this
      show ?thesis
      proof (cases vs)
        case Nil
        with t Cons.IH show ?thesis by (simp add: map_filter_simps tag_at_def truthy_def)
      next
        case (Cons v rest)
        with t Cons.IH show ?thesis by (simp add: map_filter_simps tag_at_def truthy_def)
      qed
    qed
  qed
  then show ?thesis by (simp add: following_of_def following_spec_def Let_def)
qed

lemma sort_desc_hd:
  assumes "evs \<noteq> []"
  shows "\<exists>c rest. sort_desc evs = c # rest \<and> c \<in> set evs \<and>
           list_all (\<lambda>e. created_at e \<le> created_at c) evs"
proof -
  let ?s = "sort_key (\<lambda>e. - created_at e) evs"
  have ne: "?s \<noteq> []" using assms by (metis set_sort set_empty)
  then obtain c rest where cr: "?s = c # rest" by (cases ?s) auto
  have "sorted (map (\<lambda>e. - created_at e) ?s)" by (rule sorted_sort_key)
  with cr have "\<forall>e \<in> set ?s. - created_at c \<le> - created_at e" by auto
  then have "\<forall>e \<in> set evs. created_at e \<le> created_at c" by simp
  moreover have "c \<in> set evs" using cr by (metis list.set_intros(1) set_sort)
  ultimately show ?thesis using cr by (auto simp: sort_desc_def list_all_iff)
qed

text \<open>
  When the time value of the selected event is in the range of a Date, the following list
  is read from a returned event of greatest \<open>created_at\<close>, and it consists of the second
  elements of the tags of that event whose first element is \<open>'p'\<close> and whose second
  element is present and non-empty, in tag order.
\<close>

lemma following_in_range:
  assumes "pk \<noteq> []" and "nostr [following_queryFilter pk] = Inr contactListEvents"
    and "contactListEvents \<noteq> []"
    and "\<forall>e \<in> set contactListEvents. valid_date (created_at e * 1000)"
  shows "\<exists>contactList \<in> set contactListEvents.
           (\<forall>e \<in> set contactListEvents. created_at e \<le> created_at contactList) \<and>
           useFollowing nostr (Some pk) = Inr (map Some (following_spec (tags contactList)))"
proof -
  from sort_desc_hd [OF assms(3)] obtain c rest where
    c: "sort_desc contactListEvents = c # rest" "c \<in> set contactListEvents"
       "list_all (\<lambda>e. created_at e \<le> created_at c) contactListEvents" by blast
  from c(2) assms(4) have "valid_date (created_at c * 1000)" by blast
  then have "useFollowing nostr (Some pk) = Inr (following_of c)"
    using assms(1-3) c(1) by (simp add: useFollowing_def try_catch_def)
  with c(2,3) show ?thesis by (auto simp: following_of_spec list_all_iff)
qed

lemma following_in_range_example:
  "follow_relay [following_queryFilter ''alice''] = Inr [ex_contacts_old, ex_contacts] \<and>
   useFollowing follow_relay (Some ''alice'') = Inr [Some ''bob'', Some ''dave'']"
proof -
  have h1: "''alice'' \<noteq> []" by simp
  have h2: "follow_relay [following_queryFilter ''alice''] = Inr [ex_contacts_old, ex_contacts]"
    by (simp add: follow_relay_def table_relay_def)
  have h3: "[ex_contacts_old, ex_contacts] \<noteq> []" by simp
  have h4: "\<forall>e \<in> set [ex_contacts_old, ex_contacts]. valid_date (created_at e * 1000)"
    by (simp add: valid_date_def ex_contacts_old_def ex_contacts_def)
  from following_in_range [of "''alice''" follow_relay "[ex_contacts_old, ex_contacts]",
      OF h1 h2 h3 h4] obtain c where
    c: "c \<in> set [ex_contacts_old, ex_contacts]"
       "\<forall>e \<in> set [ex_contacts_old, ex_contacts]. created_at e \<le> created_at c"
       "useFollowing follow_relay (Some ''alice'') = Inr (map Some (following_spec (tags c)))"
    by blast
  from c(1,2) have "c = ex_contacts" by (auto simp: ex_contacts_old_def ex_contacts_def)
  with c(3) have "useFollowing follow_relay (Some ''alice'') = Inr [Some ''bob'', Some ''dave'']"
    by (simp add: following_spec_def map_filter_simps ex_contacts_old_def ex_contacts_def)
  with h2 show ?thesis by simp
qed

text \<open>
  C6. The following list should consist of the second elements of the \<open>'p'\<close> tags of the
  selected event that have a non-empty value, in tag order. The code does not return it
  for every selected event: the relay returns the single contact list \<open>k4\<close>, whose one
  \<open>'p'\<close> tag carries \<open>bob\<close> and whose \<open>created_at\<close> is 8640000000001; the argument of
  the log call that formats the date throws, and the hook returns the empty list.
\<close>

theorem following_lost_out_of_range:
  "far_relay [following_queryFilter ''alice''] = Inr [ex_contacts_far] \<and>
   following_spec (tags ex_contacts_far) = [''bob''] \<and>
   useFollowing far_relay (Some ''alice'') = Inr []"
proof -
  have r: "far_relay [following_queryFilter ''alice''] = Inr [ex_contacts_far]"
    by (simp add: far_relay_def table_relay_def)
  have s: "following_spec (tags ex_contacts_far) = [''bob'']"
    by (simp add: following_spec_def map_filter_simps ex_contacts_far_def)
  have v: "\<not> valid_date (created_at ex_contacts_far * 1000)"
    by (simp add: valid_date_def ex_contacts_far_def)
  have "useFollowing far_relay (Some ''alice'') = Inr []"
    using r v by (simp add: useFollowing_def try_catch_def sort_desc_def)
  with r s show ?thesis by simp
qed

subsection \<open>Determinism\<close>

text \<open>
  C8. The result of a hook is determined by its arguments and by the relay's answers to
  the queries that the hook issues: two relays that answer these queries alike give the
  same result, whatever else they hold.
\<close>

theorem results_depend_only_on_responses:
  "(nostr1 (metrics_filters videoId videoPubkey vineId) =
      nostr2 (metrics_filters videoId videoPubkey vineId) \<longrightarrow>
    useVideoSocialMetrics nostr1 videoId videoPubkey vineId =
      useVideoSocialMetrics nostr2 videoId videoPubkey vineId) \<and>
   (nostr1 (interaction_filters videoId u videoPubkey vineId) =
      nostr2 (interaction_filters videoId u videoPubkey vineId) \<and>
    (\<forall>allEvents. nostr1 (interaction_filters videoId u videoPubkey vineId) = Inr allEvents \<longrightarrow>
       nostr1 (delete_filters u (uniqueEvents allEvents)) =
         nostr2 (delete_filters u (uniqueEvents allEvents))) \<longrightarrow>
    useVideoUserInteractions nostr1 videoId (Some u) videoPubkey vineId =
      useVideoUserInteractions nostr2 videoId (Some u) videoPubkey vineId) \<and>
   useVideoUserInteractions nostr1 videoId None videoPubkey vineId =
      useVideoUserInteractions nostr2 videoId None videoPubkey vineId \<and>
   (nostr1 [following_queryFilter pk] = nostr2 [following_queryFilter pk] \<longrightarrow>
    useFollowing nostr1 (Some pk) = useFollowing nostr2 (Some pk)) \<and>
   useFollowing nostr1 None = useFollowing nostr2 None \<and>
   (nostr1 [followers_queryFilter pk] = nostr2 [followers_queryFilter pk] \<longrightarrow>
    useFollowers nostr1 (Some pk) = useFollowers nostr2 (Some pk)) \<and>
   useFollowers nostr1 None = useFollowers nostr2 None"
proof (intro conjI impI)
  assume "nostr1 (metrics_filters videoId videoPubkey vineId) =
      nostr2 (metrics_filters videoId videoPubkey vineId)"
  then show "useVideoSocialMetrics nostr1 videoId videoPubkey vineId =
      useVideoSocialMetrics nostr2 videoId videoPubkey vineId"
    by (simp add: useVideoSocialMetrics_def)
next
  assume a: "nostr1 (interaction_filters videoId u videoPubkey vineId) =
      nostr2 (interaction_filters videoId u videoPubkey vineId) \<and>
    (\<forall>allEvents. nostr1 (interaction_filters videoId u videoPubkey vineId) = Inr allEvents \<longrightarrow>
       nostr1 (delete_filters u (uniqueEvents allEvents)) =
         nostr2 (delete_filters u (uniqueEvents allEvents)))"
  show "useVideoUserInteractions nostr1 videoId (Some u) videoPubkey vineId =
      useVideoUserInteractions nostr2 videoId (Some u) videoPubkey vineId"
  proof (cases "nostr1 (interaction_filters videoId u videoPubkey vineId)")
    case (Inl e)
    with a have "nostr2 (interaction_filters videoId u videoPubkey vineId) = Inl e" by simp
    with Inl show ?thesis by (simp add: useVideoUserInteractions_def)
  next
    case (Inr allEvents)
    with a have "nostr2 (interaction_filters videoId u videoPubkey vineId) = Inr allEvents"
      "nostr1 (delete_filters u (uniqueEvents allEvents)) =
         nostr2 (delete_filters u (uniqueEvents allEvents))" by simp_all
    with Inr show ?thesis by (simp add: useVideoUserInteractions_def Let_def)
  qed
next
  show "useVideoUserInteractions nostr1 videoId None videoPubkey vineId =
      useVideoUserInteractions nostr2 videoId None videoPubkey vineId"
    by (simp add: useVideoUserInteractions_def)
next
  assume "nostr1 [following_queryFilter pk] = nostr2 [following_queryFilter pk]"
  then show "useFollowing nostr1 (Some pk) = useFollowing nostr2 (Some pk)"
    by (simp add: useFollowing_def)
next
  show "useFollowing nostr1 None = useFollowing nostr2 None"
    by (simp add: useFollowing_def)
next
  assume "nostr1 [followers_queryFilter pk] = nostr2 [followers_queryFilter pk]"
  then show "useFollowers nostr1 (Some pk) = useFollowers nostr2 (Some pk)"
    by (simp add: useFollowers_def)
next
  show "useFollowers nostr1 None = useFollowers nostr2 None"
    by (simp add: useFollowers_def)
qed

theorem results_depend_only_on_responses_witness:
  "metrics_relay (interaction_filters ''video1'' ''alice'' None None) \<noteq>
     other_relay (interaction_filters ''video1'' ''alice'' None None) \<and>
   useVideoSocialMetrics metrics_relay ''video1'' None None =
     useVideoSocialMetrics other_relay ''video1'' None None \<and>
   useVideoUserInteractions relike_relay ''video1'' (Some ''alice'') None None =
     useVideoUserInteractions other_relay ''video1'' (Some ''alice'') None None \<and>
   useFollowing follow_relay (Some ''alice'') = useFollowing other_relay (Some ''alice'') \<and>
   useFollowers follow_relay (Some ''carol'') = useFollowers other_relay (Some ''carol'')"
proof -
  have u: "uniqueEvents [ex_like, ex_relike] = [ex_like, ex_relike]"
    by (rule unique2) (simp add: ex_like_def ex_relike_def)
  have d: "metrics_relay (interaction_filters ''video1'' ''alice'' None None) \<noteq>
             other_relay (interaction_filters ''video1'' ''alice'' None None)"
    by (simp add: metrics_relay_def other_relay_def table_relay_def metrics_filters_def
        interaction_filters_def delete_filters_def addressableRef_def)
  have m: "metrics_relay (metrics_filters ''video1'' None None) =
             other_relay (metrics_filters ''video1'' None None)"
    by (simp add: metrics_relay_def other_relay_def table_relay_def)
  have i1: "relike_relay (interaction_filters ''video1'' ''alice'' None None)
              = Inr [ex_like, ex_relike]"
    by (simp add: relike_relay_def table_relay_def)
  have i2: "other_relay (interaction_filters ''video1'' ''alice'' None None)
              = Inr [ex_like, ex_relike]"
    by (simp add: other_relay_def table_relay_def metrics_filters_def
        interaction_filters_def addressableRef_def)
  have i3: "relike_relay (delete_filters ''alice'' [ex_like, ex_relike]) =
              other_relay (delete_filters ''alice'' [ex_like, ex_relike])"
    by (simp add: relike_relay_def other_relay_def table_relay_def metrics_filters_def
        interaction_filters_def delete_filters_def addressableRef_def)
  have i: "relike_relay (interaction_filters ''video1'' ''alice'' None None) =
             other_relay (interaction_filters ''video1'' ''alice'' None None) \<and>
           (\<forall>allEvents. relike_relay (interaction_filters ''video1'' ''alice'' None None)
                          = Inr allEvents \<longrightarrow>
              relike_relay (delete_filters ''alice'' (uniqueEvents allEvents)) =
                other_relay (delete_filters ''alice'' (uniqueEvents allEvents)))"
    using i2 i3 by (simp add: i1 u)
  have f: "follow_relay [following_queryFilter ''alice''] =
             other_relay [following_queryFilter ''alice'']"
    by (simp add: follow_relay_def other_relay_def table_relay_def metrics_filters_def
        interaction_filters_def delete_filters_def addressableRef_def following_queryFilter_def)
  have g: "follow_relay [followers_queryFilter ''carol''] =
             other_relay [followers_queryFilter ''carol'']"
    by (simp add: follow_relay_def other_relay_def table_relay_def metrics_filters_def
        interaction_filters_def delete_filters_def addressableRef_def following_queryFilter_def
        followers_queryFilter_def)
  from results_depend_only_on_responses [of metrics_relay "''video1''" None None other_relay
      "''alice''" "''alice''"] m
  have 1: "useVideoSocialMetrics metrics_relay ''video1'' None None =
             useVideoSocialMetrics other_relay ''video1'' None None" by blast
  from results_depend_only_on_responses [of relike_relay "''video1''" None None other_relay
      "''alice''" "''alice''"] i
  have 2: "useVideoUserInteractions relike_relay ''video1'' (Some ''alice'') None None =
             useVideoUserInteractions other_relay ''video1'' (Some ''alice'') None None" by blast
  from results_depend_only_on_responses [of follow_relay "''video1''" None None other_relay
      "''alice''" "''alice''"] f
  have 3: "useFollowing follow_relay (Some ''alice'') = useFollowing other_relay (Some ''alice'')"
    by blast
  from results_depend_only_on_responses [of follow_relay "''video1''" None None other_relay
      "''alice''" "''carol''"] g
  have 4: "useFollowers follow_relay (Some ''carol'') = useFollowers other_relay (Some ''carol'')"
    by blast
  from d 1 2 3 4 show ?thesis by blast
qed

subsection \<open>Relay configuration\<close>

text \<open>
  C10. \<open>supportsNIP50\<close> returns a boolean for every input string: it returns false when
  the string does not parse as a URL, and it returns true exactly when the string parses
  and the hostname of the parsed URL is in \<open>NIP50_SUPPORTED_RELAYS\<close>.
\<close>

theorem supportsNIP50_total:
  "(\<exists>b. supportsNIP50 new_URL relayUrl = Inr b) \<and>
   (new_URL relayUrl = Inl err \<longrightarrow> supportsNIP50 new_URL relayUrl = Inr False) \<and>
   (supportsNIP50 new_URL relayUrl = Inr True) =
     (\<exists>url. new_URL relayUrl = Inr url \<and> hostname url \<in> set NIP50_SUPPORTED_RELAYS)"
  by (cases "new_URL relayUrl") (auto simp: supportsNIP50_def try_catch_def)

theorem supportsNIP50_total_witness:
  "supportsNIP50 ex_new_URL ''not a url'' = Inr False \<and>
   supportsNIP50 ex_new_URL ''wss://relay.damus.io'' = Inr False \<and>
   supportsNIP50 ex_new_URL ''wss://relay.divine.video'' = Inr True"
proof -
  have a: "ex_new_URL ''not a url'' = Inl (Thrown ''TypeError'')"
    by (simp add: ex_new_URL_def)
  have b: "ex_new_URL ''wss://relay.damus.io'' = Inr \<lparr>hostname = ''relay.damus.io''\<rparr>"
    by (simp add: ex_new_URL_def)
  have c: "ex_new_URL ''wss://relay.divine.video'' = Inr \<lparr>hostname = ''relay.divine.video''\<rparr>"
    by (simp add: ex_new_URL_def)
  from supportsNIP50_total [of ex_new_URL "''not a url''" "Thrown ''TypeError''"]
    supportsNIP50_total [of ex_new_URL "''wss://relay.damus.io''" "Thrown ''TypeError''"]
    supportsNIP50_total [of ex_new_URL "''wss://relay.divine.video''" "Thrown ''TypeError''"]
    a b c
  show ?thesis by (auto simp: NIP50_SUPPORTED_RELAYS_def)
qed

end
